theory Spec2Isabelle
  imports Complex_Main
begin

section \<open>Arrays and NumPy indexing\<close>

text \<open>
  The search of \<^verbatim>\<open>bin_heap_env.py\<close> works on depth images of the camera's size. An image
  is a function of row and column; only the entries with row below the height and column
  below the width are meant. An index array of shape \<open>(2, N)\<close> is the list of its \<open>N\<close>
  (row, column) pairs, in the order of its second axis.

  Depth values and the quotients computed from pixel counts are real numbers: the rounding
  of the source's floating-point operations is left out.
\<close>

type_synonym 'a image = "nat \<Rightarrow> nat \<Rightarrow> 'a"
type_synonym pixel = "int \<times> int"

datatype error = IndexError | ValueError

text \<open>NumPy accepts an index \<open>i\<close> on an axis of size \<open>n\<close> when \<open>-n \<le> i < n\<close>, a negative
  one counting from the end, and raises IndexError otherwise.\<close>

definition valid_index :: "nat \<Rightarrow> int \<Rightarrow> bool" where
  "valid_index n i \<longleftrightarrow> - int n \<le> i \<and> i < int n"

definition wrap_index :: "nat \<Rightarrow> int \<Rightarrow> nat" where
  "wrap_index n i = nat (if i < 0 then i + int n else i)"

definition valid_pixel :: "nat \<Rightarrow> nat \<Rightarrow> pixel \<Rightarrow> bool" where
  "valid_pixel H W p \<longleftrightarrow> valid_index H (fst p) \<and> valid_index W (snd p)"

definition take_at :: "nat \<Rightarrow> nat \<Rightarrow> 'a image \<Rightarrow> pixel \<Rightarrow> 'a" where
  "take_at H W img p = img (wrap_index H (fst p)) (wrap_index W (snd p))"

definition all_pixels :: "nat \<Rightarrow> nat \<Rightarrow> (nat \<times> nat) list" where
  "all_pixels H W = List.product [0..<H] [0..<W]"

text \<open>\<^verbatim>\<open>np.stack(np.where(m))\<close>: the indices of the true entries, in row-major order.\<close>

definition np_where :: "nat \<Rightarrow> nat \<Rightarrow> bool image \<Rightarrow> pixel list" where
  "np_where H W m =
     map (\<lambda>(r, c). (int r, int c)) (filter (\<lambda>(r, c). m r c) (all_pixels H W))"

text \<open>\<^verbatim>\<open>x.astype(np.int)\<close> on a float: the fractional part is dropped.\<close>

definition astype_int :: "real \<Rightarrow> int" where
  "astype_int x = (if x < 0 then \<lceil>x\<rceil> else \<lfloor>x\<rfloor>)"

text \<open>The cast of nan to a 64-bit integer (what NumPy gives on x86-64). It is met only
  as the centroid of an empty index array, where nothing is shifted by it.\<close>

definition nan_as_int :: int where
  "nan_as_int = - (2 ^ 63)"

text \<open>\<^verbatim>\<open>np.linspace(0, stop, num=num, dtype=np.int)\<close>.\<close>

definition linspace_int :: "int \<Rightarrow> nat \<Rightarrow> int list" where
  "linspace_int stop num =
     map (\<lambda>i. astype_int (real i * (real_of_int stop / real (num - 1)))) [0..<num]"

text \<open>\<^verbatim>\<open>g = np.meshgrid(y, x); np.array([g[0].flatten(), g[1].flatten()])\<close>: entry
  \<open>i * len(y) + j\<close> is \<open>(y[j], x[i])\<close>.\<close>

definition meshgrid_flat :: "int list \<Rightarrow> int list \<Rightarrow> pixel list" where
  "meshgrid_flat y x = map (\<lambda>(xv, yv). (yv, xv)) (List.product x y)"

section \<open>The environment and its renders\<close>

text \<open>
  The renderer is outside this file. Of the environment, the search reads the camera's
  height and width and three depth renders of the scene: with the target and the bin
  hidden, with the plane alone, and with the plane and the target.
\<close>

record env =
  camera_height :: nat
  camera_width :: nat
  render_without_target :: "real image"
  render_plane :: "real image"
  render_plane_and_target :: "real image"

text \<open>\<^verbatim>\<open>render_target_modal_mask\<close> returns
  \<^verbatim>\<open>full_depth, depth, modal_mask, plane_depth\<close> with
  \<^verbatim>\<open>modal_mask = depth - full_depth < 0\<close>.\<close>

definition render_target_modal_mask ::
  "env \<Rightarrow> real image \<times> real image \<times> bool image \<times> real image" where
  "render_target_modal_mask e =
     (let full_depth = render_without_target e;
          plane_depth = render_plane e;
          depth = render_plane_and_target e;
          modal_mask = (\<lambda>r c. depth r c - full_depth r c < 0)
      in (full_depth, depth, modal_mask, plane_depth))"

text \<open>\<^verbatim>\<open>render_segmentation_images\<close> computes its modal mask differently, from a render
  \<open>depth\<close> of one object alone and a render \<open>full_depth\<close> of the whole scene.\<close>

definition segmentation_modal_mask :: "real image \<Rightarrow> real image \<Rightarrow> bool image" where
  "segmentation_modal_mask depth full_depth =
     (\<lambda>r c. \<bar>depth r c - full_depth r c\<bar> < 1 / 1000000 \<and> full_depth r c > 0)"

definition full_depth :: "env \<Rightarrow> real image" where
  "full_depth e = fst (render_target_modal_mask e)"

definition target_depth :: "env \<Rightarrow> real image" where
  "target_depth e = fst (snd (render_target_modal_mask e))"

definition target_modal_mask :: "env \<Rightarrow> bool image" where
  "target_modal_mask e = fst (snd (snd (render_target_modal_mask e)))"

definition plane_depth :: "env \<Rightarrow> real image" where
  "plane_depth e = snd (snd (snd (render_target_modal_mask e)))"

section \<open>Offset, centroid and the grid of translations\<close>

definition target_inds :: "env \<Rightarrow> pixel list" where
  "target_inds e =
     np_where (camera_height e) (camera_width e)
       (\<lambda>r c. plane_depth e r c > target_depth e r c)"

text \<open>\<^verbatim>\<open>np.mean(target_inds, axis=1)\<close>.\<close>

definition target_centroid :: "env \<Rightarrow> real \<times> real" where
  "target_centroid e =
     (real_of_int (sum_list (map fst (target_inds e))) / real (length (target_inds e)),
      real_of_int (sum_list (map snd (target_inds e))) / real (length (target_inds e)))"

text \<open>\<^verbatim>\<open>target_centroid.astype(np.int)\<close>; the mean of an empty array is nan.\<close>

definition target_centroid_int :: "env \<Rightarrow> pixel" where
  "target_centroid_int e =
     (if target_inds e = [] then (nan_as_int, nan_as_int)
      else (astype_int (fst (target_centroid e)), astype_int (snd (target_centroid e))))"

text \<open>\<^verbatim>\<open>(plane_depth - target_depth)[tuple(target_inds)]\<close>.\<close>

definition target_depth_offset :: "env \<Rightarrow> real list" where
  "target_depth_offset e =
     map (\<lambda>p. take_at (camera_height e) (camera_width e) (plane_depth e) p
             - take_at (camera_height e) (camera_width e) (target_depth e) p)
         (target_inds e)"

definition num_x_steps :: nat where
  "num_x_steps = 51"

definition num_y_steps :: nat where
  "num_y_steps = 38"

definition grid :: "env \<Rightarrow> pixel list" where
  "grid e =
     (let x = linspace_int (int (camera_width e) - 1) num_x_steps;
          y = linspace_int (int (camera_height e) - 1) num_y_steps
      in map (\<lambda>g. (fst g - fst (target_centroid_int e), snd g - snd (target_centroid_int e)))
             (meshgrid_flat y x))"

section \<open>Candidates\<close>

text \<open>One candidate is the index array of the target moved by one entry of the grid;
  \<open>shifted_target_inds\<close> lists the candidates in the order of the source's second axis.\<close>

definition shift_inds :: "pixel list \<Rightarrow> pixel \<Rightarrow> pixel list" where
  "shift_inds inds g = map (\<lambda>p. (fst p + fst g, snd p + snd g)) inds"

definition shifted_target_inds_2d :: "env \<Rightarrow> pixel list list" where
  "shifted_target_inds_2d e = map (shift_inds (target_inds e)) (grid e)"

definition num_rots :: nat where
  "num_rots = 16"

definition rot_angle :: "nat \<Rightarrow> real" where
  "rot_angle k = real k * 2 * pi / real num_rots"

text \<open>The \<^verbatim>\<open>einsum\<close> of the rotation matrices \<open>[[cos, sin], [-sin, cos]]\<close> with the
  indices taken relative to the centroid, and the centroid added back.\<close>

definition rotate_about :: "real \<times> real \<Rightarrow> real \<Rightarrow> pixel \<Rightarrow> real \<times> real" where
  "rotate_about cen a p =
     (let dr = real_of_int (fst p) - fst cen;
          dc = real_of_int (snd p) - snd cen
      in (cos a * dr + sin a * dc + fst cen, - sin a * dr + cos a * dc + snd cen))"

definition rotated_target_inds :: "env \<Rightarrow> pixel list list" where
  "rotated_target_inds e =
     map (\<lambda>k. map (\<lambda>p. (astype_int (fst (rotate_about (target_centroid e) (rot_angle k) p)),
                        astype_int (snd (rotate_about (target_centroid e) (rot_angle k) p))))
                  (target_inds e))
         [0..<num_rots]"

text \<open>\<^verbatim>\<open>np.repeat(rotated_target_inds, grid.shape[1], axis=0) + np.tile(grid, num_rots)\<close>:
  candidate \<open>m\<close> is rotation \<open>m div 1938\<close> moved by grid entry \<open>m mod 1938\<close>.\<close>

definition shifted_target_inds_3d :: "env \<Rightarrow> pixel list list" where
  "shifted_target_inds_3d e =
     concat (map (\<lambda>rinds. map (shift_inds rinds) (grid e)) (rotated_target_inds e))"

section \<open>Reflection at the image bounds and the in-bounds mask\<close>

definition reflect :: "nat \<Rightarrow> int \<Rightarrow> int" where
  "reflect bound x = (if x \<ge> int bound then int bound - 1 - x else x)"

definition reflect_pixel :: "env \<Rightarrow> pixel \<Rightarrow> pixel" where
  "reflect_pixel e p = (reflect (camera_height e) (fst p), reflect (camera_width e) (snd p))"

text \<open>A candidate after the reflection, and its row of
  \<^verbatim>\<open>in_bounds_mask = np.logical_and(*(shifted_target_inds >= 0))\<close>.\<close>

definition reflected :: "env \<Rightarrow> pixel list \<Rightarrow> pixel list" where
  "reflected e cand = map (reflect_pixel e) cand"

definition in_bounds :: "pixel \<Rightarrow> bool" where
  "in_bounds p \<longleftrightarrow> fst p \<ge> 0 \<and> snd p \<ge> 0"

definition in_bounds_mask :: "env \<Rightarrow> pixel list \<Rightarrow> bool list" where
  "in_bounds_mask e cand = map in_bounds (reflected e cand)"

text \<open>The fancy indexing \<^verbatim>\<open>plane_depth[tuple(shifted_target_inds)]\<close> raises when one
  index of one candidate is out of range.\<close>

definition indices_valid :: "env \<Rightarrow> pixel list list \<Rightarrow> bool" where
  "indices_valid e cands \<longleftrightarrow>
     list_all (\<lambda>cand. list_all (valid_pixel (camera_height e) (camera_width e))
                               (reflected e cand)) cands"

section \<open>Occlusion test\<close>

text \<open>The row of \<^verbatim>\<open>visible_shifted_target_mask\<close> of a candidate: pixel \<open>p\<close> of the
  candidate is compared with the offset of pixel \<open>p\<close> of the target.\<close>

definition visible_shifted_target_mask :: "env \<Rightarrow> pixel list \<Rightarrow> bool list" where
  "visible_shifted_target_mask e cand =
     map (\<lambda>(q, off).
            take_at (camera_height e) (camera_width e) (plane_depth e) q - off
              < take_at (camera_height e) (camera_width e) (full_depth e) q
            \<and> in_bounds q)
         (zip (reflected e cand) (target_depth_offset e))"

text \<open>\<^verbatim>\<open>target_inds_mask = target_modal_mask[tuple(target_inds)]\<close>.\<close>

definition target_inds_mask :: "env \<Rightarrow> bool list" where
  "target_inds_mask e =
     map (take_at (camera_height e) (camera_width e) (target_modal_mask e)) (target_inds e)"

definition count_true :: "bool list \<Rightarrow> int" where
  "count_true bs = int (length (filter (\<lambda>b. b) bs))"

section \<open>Matching\<close>

text \<open>Boolean-mask selection \<^verbatim>\<open>inds[:, mask]\<close> on one candidate.\<close>

definition select_by :: "pixel list \<Rightarrow> bool list \<Rightarrow> pixel list" where
  "select_by inds msk = map fst (filter snd (zip inds msk))"

text \<open>Fully occluded target: \<^verbatim>\<open>match_mask\<close> is the in-bounds mask on the rows of the
  candidates with no visible pixel.\<close>

definition occluded_match :: "env \<Rightarrow> pixel list \<Rightarrow> pixel list" where
  "occluded_match e cand =
     (if \<not> list_ex (\<lambda>b. b) (visible_shifted_target_mask e cand)
      then select_by (reflected e cand) (in_bounds_mask e cand) else [])"

text \<open>Visible target: \<^verbatim>\<open>shifted_target_masks\<close> of a candidate is true at its visible
  pixels; the intersection counts the pixels of the modal mask where it is true.\<close>

definition visible_target_inds :: "env \<Rightarrow> pixel list \<Rightarrow> pixel list" where
  "visible_target_inds e cand = select_by (reflected e cand) (visible_shifted_target_mask e cand)"

definition intersection :: "env \<Rightarrow> pixel list \<Rightarrow> int" where
  "intersection e cand =
     int (length (filter (\<lambda>(r, c). target_modal_mask e r c
                                   \<and> (int r, int c) \<in> set (visible_target_inds e cand))
                         (all_pixels (camera_height e) (camera_width e))))"

definition union_count :: "env \<Rightarrow> pixel list \<Rightarrow> int" where
  "union_count e cand =
     count_true (visible_shifted_target_mask e cand) + count_true (target_inds_mask e)
       - intersection e cand"

definition mask_iou :: "env \<Rightarrow> pixel list \<Rightarrow> real" where
  "mask_iou e cand = real_of_int (intersection e cand) / real_of_int (union_count e cand)"

text \<open>The thresholds of the two searches, as functions of \<^verbatim>\<open>target_inds_mask.sum()\<close>.\<close>

definition iou_thresh_2d :: "int \<Rightarrow> real" where
  "iou_thresh_2d n = min (9 / 10) (real_of_int (n - 2) / real_of_int n)"

definition iou_thresh_3d :: "int \<Rightarrow> real" where
  "iou_thresh_3d n = min (9 / 10) (real_of_int (max (n - 2) 1) / real_of_int n)"

definition iou_match :: "env \<Rightarrow> real \<Rightarrow> pixel list \<Rightarrow> pixel list" where
  "iou_match e iou_thresh cand =
     (if mask_iou e cand \<ge> iou_thresh
      then select_by (reflected e cand) (in_bounds_mask e cand) else [])"

text \<open>\<^verbatim>\<open>np.any\<close> of an index array: some entry is not zero.\<close>

definition np_any :: "pixel list \<Rightarrow> bool" where
  "np_any inds \<longleftrightarrow> list_ex (\<lambda>p. fst p \<noteq> 0 \<or> snd p \<noteq> 0) inds"

text \<open>The selected pixels of all candidates, in the order of the candidates:
  \<^verbatim>\<open>shifted_target_inds[:, match_mask]\<close> and \<^verbatim>\<open>shifted_target_inds[1:, iou_mask]\<close>.\<close>

definition occluded_matches :: "env \<Rightarrow> pixel list list \<Rightarrow> pixel list" where
  "occluded_matches e cands = concat (map (occluded_match e) cands)"

definition iou_matches :: "env \<Rightarrow> real \<Rightarrow> pixel list list \<Rightarrow> pixel list" where
  "iou_matches e iou_thresh cands = concat (map (iou_match e iou_thresh) cands)"

definition matching_target_inds :: "env \<Rightarrow> (int \<Rightarrow> real) \<Rightarrow> pixel list list \<Rightarrow> pixel list" where
  "matching_target_inds e thresh cands =
     (if \<not> list_ex (\<lambda>b. b) (target_inds_mask e)
      then occluded_matches e cands
      else let iou_thresh = thresh (count_true (target_inds_mask e));
               matching = iou_matches e iou_thresh cands
           in if \<not> np_any matching then target_inds e else matching)"

section \<open>The two output images\<close>

definition hits :: "nat \<Rightarrow> nat \<Rightarrow> pixel list \<Rightarrow> nat image" where
  "hits H W inds =
     (\<lambda>r c. length (filter (\<lambda>p. wrap_index H (fst p) = r \<and> wrap_index W (snd p) = c) inds))"

definition image_max :: "nat \<Rightarrow> nat \<Rightarrow> nat image \<Rightarrow> nat" where
  "image_max H W img = Max (set (map (\<lambda>(r, c). img r c) (all_pixels H W)))"

text \<open>
  \<^verbatim>\<open>dist_im[rows, cols] = True\<close> raises on an index out of range; \<^verbatim>\<open>soft_dist_im.max()\<close>
  raises on an image with no pixel. When no pixel was hit the quotient
  \<^verbatim>\<open>255 * soft_dist_im / soft_dist_im.max()\<close> is nan everywhere, and its cast to an
  unsigned byte is taken to be 0.
\<close>

definition accumulate :: "nat \<Rightarrow> nat \<Rightarrow> pixel list \<Rightarrow> error + (bool image \<times> nat image)" where
  "accumulate H W inds =
     (if \<not> list_all (valid_pixel H W) inds then Inl IndexError
      else if H = 0 \<or> W = 0 then Inl ValueError
      else let soft = hits H W inds;
               m = image_max H W soft
           in Inr (\<lambda>r c. 0 < soft r c,
                   \<lambda>r c. if m = 0 then 0 else (255 * soft r c) div m))"

section \<open>The two searches\<close>

text \<open>From the reflection on, \<^verbatim>\<open>find_target_distribution_2d\<close> and
  \<^verbatim>\<open>find_target_distribution_3d\<close> are the same statements, but for the threshold.\<close>

definition distribution :: "env \<Rightarrow> (int \<Rightarrow> real) \<Rightarrow> pixel list list
    \<Rightarrow> error + (bool image \<times> nat image)" where
  "distribution e thresh cands =
     (if \<not> indices_valid e cands then Inl IndexError
      else accumulate (camera_height e) (camera_width e) (matching_target_inds e thresh cands))"

definition find_target_distribution_2d :: "env \<Rightarrow> error + (bool image \<times> nat image)" where
  "find_target_distribution_2d e = distribution e iou_thresh_2d (shifted_target_inds_2d e)"

definition find_target_distribution_3d :: "env \<Rightarrow> error + (bool image \<times> nat image)" where
  "find_target_distribution_3d e = distribution e iou_thresh_3d (shifted_target_inds_3d e)"

section \<open>The frame\<close>

text \<open>A coordinate pair lies inside the frame when it is within \<open>[0, bound)\<close> on both axes.\<close>

definition inside :: "env \<Rightarrow> pixel \<Rightarrow> bool" where
  "inside e q \<longleftrightarrow> 0 \<le> fst q \<and> fst q < int (camera_height e)
                 \<and> 0 \<le> snd q \<and> snd q < int (camera_width e)"

section \<open>Example scenes\<close>

text \<open>
  Small scenes on which the searches are evaluated below. The plane is at depth 2 and the
  target at depth 1. In \<open>scene_1x2\<close> and \<open>scene_row_occluded\<close> an occluder at depth 1/2
  covers the target, in \<open>scene_row_empty\<close> there is no target. The rows of 101 pixels have
  the grid columns \<open>0, 2, 4, \<dots>, 100\<close>.
\<close>

definition scene_1x1 :: env where
  "scene_1x1 = \<lparr>camera_height = 1, camera_width = 1,
     render_without_target = (\<lambda>r c. 2), render_plane = (\<lambda>r c. 2),
     render_plane_and_target = (\<lambda>r c. 1)\<rparr>"

definition scene_1x2 :: env where
  "scene_1x2 = \<lparr>camera_height = 1, camera_width = 2,
     render_without_target = (\<lambda>r c. 1 / 2), render_plane = (\<lambda>r c. 2),
     render_plane_and_target = (\<lambda>r c. 1)\<rparr>"

definition scene_row_occluded :: env where
  "scene_row_occluded = \<lparr>camera_height = 1, camera_width = 101,
     render_without_target = (\<lambda>r c. if c = 1 then 1 / 2 else 2), render_plane = (\<lambda>r c. 2),
     render_plane_and_target = (\<lambda>r c. if c = 1 then 1 else 2)\<rparr>"

definition scene_row_visible :: env where
  "scene_row_visible = \<lparr>camera_height = 1, camera_width = 101,
     render_without_target = (\<lambda>r c. 2), render_plane = (\<lambda>r c. 2),
     render_plane_and_target = (\<lambda>r c. if c = 1 then 1 else 2)\<rparr>"

definition scene_row_empty :: env where
  "scene_row_empty = \<lparr>camera_height = 1, camera_width = 101,
     render_without_target = (\<lambda>r c. 2), render_plane = (\<lambda>r c. 2),
     render_plane_and_target = (\<lambda>r c. 2)\<rparr>"

definition scene_1x5 :: env where
  "scene_1x5 = \<lparr>camera_height = 1, camera_width = 5,
     render_without_target = (\<lambda>r c. 2), render_plane = (\<lambda>r c. 2),
     render_plane_and_target = (\<lambda>r c. if c = 2 \<or> c = 3 then 2 else 1)\<rparr>"

section \<open>Index arrays, the grid and the centroid\<close>

lemma astype_int_of_int [simp]: "astype_int (of_int k) = k"
  by (simp add: astype_int_def)

lemma astype_int_zero [simp]: "astype_int 0 = 0"
  by (simp add: astype_int_def)

lemma astype_int_nonneg_div:
  assumes "0 \<le> a" "0 < b"
  shows "astype_int (real_of_int a / real_of_int b) = a div b"
proof -
  have "0 \<le> real_of_int a / real_of_int b" using assms by simp
  then show ?thesis by (simp add: astype_int_def floor_divide_of_int_eq)
qed

lemma length_linspace_int [simp]: "length (linspace_int stop num) = num"
  by (simp add: linspace_int_def)

lemma linspace_int_nth:
  assumes "0 \<le> stop" "i < num"
  shows "linspace_int stop num ! i = (int i * stop) div (int num - 1)"
proof -
  have num: "2 \<le> num \<or> num = 1" using assms by arith
  show ?thesis
  proof (cases "num = 1")
    case True
    then show ?thesis using assms by (simp add: linspace_int_def)
  next
    case False
    then have n2: "2 \<le> num" using num by simp
    have "real i * (real_of_int stop / real (num - 1))
          = real_of_int (int i * stop) / real_of_int (int num - 1)"
      using n2 by (simp add: of_nat_diff)
    moreover have "0 \<le> int i * stop" using assms by simp
    moreover have "0 < int num - 1" using n2 by simp
    ultimately show ?thesis
      using assms by (simp add: linspace_int_def astype_int_nonneg_div del: of_int_mult of_int_diff)
  qed
qed

lemma linspace_int_range:
  assumes "0 \<le> stop" "v \<in> set (linspace_int stop num)"
  shows "0 \<le> v \<and> v \<le> stop"
proof -
  obtain i where i: "i < num" "v = linspace_int stop num ! i"
    using assms(2) by (metis in_set_conv_nth length_linspace_int)
  have v: "v = (int i * stop) div (int num - 1)"
    using i assms(1) by (simp add: linspace_int_nth)
  show ?thesis
  proof (cases "num = 1")
    case True
    then show ?thesis using v i assms by simp
  next
    case False
    then have pos: "0 < int num - 1" using i by simp
    have "int i * stop \<le> (int num - 1) * stop"
      using i assms(1) by (intro mult_right_mono) auto
    then have "(int i * stop) div (int num - 1) \<le> ((int num - 1) * stop) div (int num - 1)"
      by (rule zdiv_mono1) (rule pos)
    also have "\<dots> = stop" using pos by simp
    finally have "v \<le> stop" using v by simp
    moreover have "0 \<le> v" using v pos assms(1) i by (simp add: pos_imp_zdiv_nonneg_iff)
    ultimately show ?thesis by simp
  qed
qed

lemma linspace_int_zero: "v \<in> set (linspace_int 0 num) \<Longrightarrow> v = 0"
  using linspace_int_range [of 0 v num] by simp

lemma set_all_pixels [simp]: "set (all_pixels H W) = {(r, c). r < H \<and> c < W}"
  by (auto simp: all_pixels_def)

lemma distinct_all_pixels [simp]: "distinct (all_pixels H W)"
  by (simp add: all_pixels_def distinct_product)

lemma set_np_where:
  "set (np_where H W m) = {(int r, int c) | r c. r < H \<and> c < W \<and> m r c}"
  by (auto simp: np_where_def image_iff)

lemma distinct_np_where [simp]: "distinct (np_where H W m)"
  by (auto simp: np_where_def distinct_map inj_on_def)

lemma set_meshgrid_flat [simp]: "set (meshgrid_flat y x) = {(yv, xv). yv \<in> set y \<and> xv \<in> set x}"
  by (auto simp: meshgrid_flat_def image_iff)

lemma length_meshgrid_flat [simp]: "length (meshgrid_flat y x) = length x * length y"
  by (simp add: meshgrid_flat_def)

lemma length_grid [simp]: "length (grid e) = 1938"
  by (simp add: grid_def Let_def num_x_steps_def num_y_steps_def)

lemma set_grid:
  "set (grid e) = {(yv - fst (target_centroid_int e), xv - snd (target_centroid_int e)) | yv xv.
     yv \<in> set (linspace_int (int (camera_height e) - 1) num_y_steps)
     \<and> xv \<in> set (linspace_int (int (camera_width e) - 1) num_x_steps)}"
  by (auto simp: grid_def Let_def image_iff)

section \<open>Reflection, the in-bounds mask and the visible mask\<close>

lemma target_inds_inside: "t \<in> set (target_inds e) \<Longrightarrow> inside e t"
  by (auto simp: target_inds_def set_np_where inside_def)

lemma reflect_nonneg_iff: "0 \<le> reflect n x \<longleftrightarrow> 0 \<le> x \<and> x < int n"
  by (auto simp: reflect_def)

lemma in_bounds_reflect_pixel: "in_bounds (reflect_pixel e q) \<longleftrightarrow> inside e q"
  by (auto simp: in_bounds_def reflect_pixel_def reflect_nonneg_iff inside_def)

lemma reflect_pixel_inside: "inside e q \<Longrightarrow> reflect_pixel e q = q"
  by (cases q) (auto simp: reflect_pixel_def reflect_def inside_def)

lemma take_at_inside:
  "inside e q \<Longrightarrow>
   take_at (camera_height e) (camera_width e) img q = img (nat (fst q)) (nat (snd q))"
  by (simp add: take_at_def wrap_index_def inside_def)

lemma select_by_map: "select_by xs (map g xs) = filter g xs"
  by (induction xs) (auto simp: select_by_def)

lemma select_in_bounds:
  "select_by (reflected e cand) (in_bounds_mask e cand) = filter (inside e) cand"
proof -
  have "select_by (reflected e cand) (in_bounds_mask e cand)
        = filter in_bounds (map (reflect_pixel e) cand)"
    unfolding in_bounds_mask_def select_by_map reflected_def ..
  also have "\<dots> = map (reflect_pixel e) (filter (inside e) cand)"
    by (simp add: filter_map comp_def in_bounds_reflect_pixel)
  also have "\<dots> = filter (inside e) cand"
    by (rule map_idI) (simp add: reflect_pixel_inside)
  finally show ?thesis .
qed

lemma length_shift_inds [simp]: "length (shift_inds inds g) = length inds"
  by (simp add: shift_inds_def)

lemma length_target_depth_offset [simp]:
  "length (target_depth_offset e) = length (target_inds e)"
  by (simp add: target_depth_offset_def)

lemma length_candidate_2d:
  "cand \<in> set (shifted_target_inds_2d e) \<Longrightarrow> length cand = length (target_inds e)"
  by (auto simp: shifted_target_inds_2d_def)

lemma length_rotated:
  "rinds \<in> set (rotated_target_inds e) \<Longrightarrow> length rinds = length (target_inds e)"
  by (auto simp: rotated_target_inds_def)

lemma length_candidate_3d:
  "cand \<in> set (shifted_target_inds_3d e) \<Longrightarrow> length cand = length (target_inds e)"
  by (auto simp: shifted_target_inds_3d_def length_rotated)

lemma visible_nth:
  assumes "p < length cand" "length cand = length (target_inds e)"
  shows "visible_shifted_target_mask e cand ! p \<longleftrightarrow>
     inside e (cand ! p)
     \<and> plane_depth e (nat (fst (cand ! p))) (nat (snd (cand ! p)))
         - (plane_depth e (nat (fst (target_inds e ! p))) (nat (snd (target_inds e ! p)))
            - target_depth e (nat (fst (target_inds e ! p))) (nat (snd (target_inds e ! p))))
       < full_depth e (nat (fst (cand ! p))) (nat (snd (cand ! p)))"
proof -
  have t: "inside e (target_inds e ! p)"
    using assms by (simp add: target_inds_inside)
  have off: "target_depth_offset e ! p
      = plane_depth e (nat (fst (target_inds e ! p))) (nat (snd (target_inds e ! p)))
        - target_depth e (nat (fst (target_inds e ! p))) (nat (snd (target_inds e ! p)))"
    using assms t by (simp add: target_depth_offset_def take_at_inside)
  show ?thesis
  proof (cases "inside e (cand ! p)")
    case True
    then have "in_bounds (cand ! p)"
      using in_bounds_reflect_pixel [of e "cand ! p"] by (simp add: reflect_pixel_inside)
    then show ?thesis
      using assms off True
      by (simp add: visible_shifted_target_mask_def reflected_def reflect_pixel_inside
          take_at_inside)
  next
    case False
    then show ?thesis
      using assms
      by (simp add: visible_shifted_target_mask_def reflected_def in_bounds_reflect_pixel)
  qed
qed


section \<open>The example scenes evaluated\<close>

lemmas render_defs = full_depth_def target_depth_def plane_depth_def target_modal_mask_def
  render_target_modal_mask_def Let_def

lemma scene_1x1_simps [simp]:
  "camera_height scene_1x1 = 1" "camera_width scene_1x1 = 1"
  "plane_depth scene_1x1 = (\<lambda>r c. 2)" "target_depth scene_1x1 = (\<lambda>r c. 1)"
  "full_depth scene_1x1 = (\<lambda>r c. 2)" "target_modal_mask scene_1x1 = (\<lambda>r c. True)"
  by (simp_all add: scene_1x1_def render_defs)

lemma scene_1x2_simps [simp]:
  "camera_height scene_1x2 = 1" "camera_width scene_1x2 = 2"
  "plane_depth scene_1x2 = (\<lambda>r c. 2)" "target_depth scene_1x2 = (\<lambda>r c. 1)"
  "full_depth scene_1x2 = (\<lambda>r c. 1 / 2)" "target_modal_mask scene_1x2 = (\<lambda>r c. False)"
  by (simp_all add: scene_1x2_def render_defs)

lemma scene_row_occluded_simps [simp]:
  "camera_height scene_row_occluded = 1" "camera_width scene_row_occluded = 101"
  "plane_depth scene_row_occluded = (\<lambda>r c. 2)"
  "target_depth scene_row_occluded = (\<lambda>r c. if c = 1 then 1 else 2)"
  "full_depth scene_row_occluded = (\<lambda>r c. if c = 1 then 1 / 2 else 2)"
  "target_modal_mask scene_row_occluded = (\<lambda>r c. False)"
  by (simp_all add: scene_row_occluded_def render_defs fun_eq_iff)

lemma scene_row_visible_simps [simp]:
  "camera_height scene_row_visible = 1" "camera_width scene_row_visible = 101"
  "plane_depth scene_row_visible = (\<lambda>r c. 2)"
  "target_depth scene_row_visible = (\<lambda>r c. if c = 1 then 1 else 2)"
  "full_depth scene_row_visible = (\<lambda>r c. 2)"
  "target_modal_mask scene_row_visible = (\<lambda>r c. c = 1)"
  by (simp_all add: scene_row_visible_def render_defs fun_eq_iff)

lemma scene_row_empty_simps [simp]:
  "camera_height scene_row_empty = 1" "camera_width scene_row_empty = 101"
  "plane_depth scene_row_empty = (\<lambda>r c. 2)" "target_depth scene_row_empty = (\<lambda>r c. 2)"
  "full_depth scene_row_empty = (\<lambda>r c. 2)" "target_modal_mask scene_row_empty = (\<lambda>r c. False)"
  by (simp_all add: scene_row_empty_def render_defs)

lemma scene_1x5_simps [simp]:
  "camera_height scene_1x5 = 1" "camera_width scene_1x5 = 5"
  "plane_depth scene_1x5 = (\<lambda>r c. 2)"
  "target_depth scene_1x5 = (\<lambda>r c. if c = 2 \<or> c = 3 then 2 else 1)"
  "full_depth scene_1x5 = (\<lambda>r c. 2)"
  "target_modal_mask scene_1x5 = (\<lambda>r c. \<not> (c = 2 \<or> c = 3))"
  by (simp_all add: scene_1x5_def render_defs fun_eq_iff)

lemma upt_1 [simp]: "[0..<1] = [0]" by (simp add: upt_rec)
lemma upt_2: "[0..<2] = [0, 1]" by (simp add: upt_rec)
lemma upt_5: "[0..<5] = [0, 1, 2, 3, 4]" by (simp add: upt_rec)

lemma target_inds_1x1: "target_inds scene_1x1 = [(0, 0)]"
  by (simp add: target_inds_def np_where_def all_pixels_def scene_1x1_def render_defs)

lemma target_inds_1x2: "target_inds scene_1x2 = [(0, 0), (0, 1)]"
  by (simp add: target_inds_def np_where_def all_pixels_def scene_1x2_def render_defs upt_2)

lemma target_inds_1x5: "target_inds scene_1x5 = [(0, 0), (0, 1), (0, 4)]"
  by (simp add: target_inds_def np_where_def all_pixels_def scene_1x5_def render_defs upt_5)

lemma filter_eq_single:
  assumes "distinct xs" "x \<in> set xs" "\<And>y. y \<in> set xs \<Longrightarrow> P y \<longleftrightarrow> y = x"
  shows "filter P xs = [x]"
  using assms
proof (induction xs)
  case Nil
  then show ?case by simp
next
  case (Cons a xs)
  show ?case
  proof (cases "a = x")
    case True
    then have "x \<notin> set xs" using Cons.prems(1) by simp
    then have "filter P xs = []" using Cons.prems(3) by (auto simp: filter_empty_conv)
    then show ?thesis using True Cons.prems(3) by simp
  next
    case False
    then have "x \<in> set xs" using Cons.prems(2) by simp
    moreover have "\<not> P a" using False Cons.prems(3) by simp
    ultimately show ?thesis using Cons by simp
  qed
qed

lemma np_where_single:
  assumes "r0 < H" "c0 < W" "\<And>r c. r < H \<Longrightarrow> c < W \<Longrightarrow> m r c \<longleftrightarrow> r = r0 \<and> c = c0"
  shows "np_where H W m = [(int r0, int c0)]"
proof -
  have "filter (\<lambda>(r, c). m r c) (all_pixels H W) = [(r0, c0)]"
    using assms by (intro filter_eq_single) auto
  then show ?thesis by (simp add: np_where_def)
qed

lemma np_where_none:
  assumes "\<And>r c. r < H \<Longrightarrow> c < W \<Longrightarrow> \<not> m r c"
  shows "np_where H W m = []"
  using assms by (auto simp: np_where_def filter_empty_conv)

lemma target_inds_row_occluded: "target_inds scene_row_occluded = [(0, 1)]"
  unfolding target_inds_def
  using np_where_single [of 0 1 1 101]
  by (simp add: scene_row_occluded_def render_defs)

lemma target_inds_row_visible: "target_inds scene_row_visible = [(0, 1)]"
  unfolding target_inds_def
  using np_where_single [of 0 1 1 101]
  by (simp add: scene_row_visible_def render_defs)

lemma target_inds_row_empty: "target_inds scene_row_empty = []"
  unfolding target_inds_def
  by (rule np_where_none) (simp add: scene_row_empty_def render_defs)

lemma centroid_1x1: "target_centroid_int scene_1x1 = (0, 0)"
  by (simp add: target_centroid_int_def target_centroid_def target_inds_1x1)

lemma centroid_1x2: "target_centroid_int scene_1x2 = (0, 0)"
  by (simp add: target_centroid_int_def target_centroid_def target_inds_1x2 astype_int_def)

lemma centroid_row_occluded: "target_centroid_int scene_row_occluded = (0, 1)"
  by (simp add: target_centroid_int_def target_centroid_def target_inds_row_occluded astype_int_def)

lemma centroid_row_visible: "target_centroid_int scene_row_visible = (0, 1)"
  by (simp add: target_centroid_int_def target_centroid_def target_inds_row_visible astype_int_def)

lemma centroid_1x5: "target_centroid scene_1x5 = (0, 5 / 3)"
  by (simp add: target_centroid_def target_inds_1x5)

lemma centroid_int_1x5: "target_centroid_int scene_1x5 = (0, 1)"
  by (simp add: target_centroid_int_def centroid_1x5 target_inds_1x5 astype_int_def)


lemma linspace_int_first: "0 < num \<Longrightarrow> 0 \<in> set (linspace_int stop num)"
proof -
  assume "0 < num"
  then have "linspace_int stop num ! 0 \<in> set (linspace_int stop num)"
    by (intro nth_mem) simp
  moreover have "linspace_int stop num ! 0 = 0"
    using \<open>0 < num\<close> by (simp add: linspace_int_def)
  ultimately show ?thesis by simp
qed

lemma linspace_int_mem:
  assumes "0 \<le> stop" "i < num"
  shows "(int i * stop) div (int num - 1) \<in> set (linspace_int stop num)"
  using assms nth_mem [of i "linspace_int stop num"] by (simp add: linspace_int_nth)

lemma grid_memI:
  assumes "yv \<in> set (linspace_int (int (camera_height e) - 1) num_y_steps)"
    and "xv \<in> set (linspace_int (int (camera_width e) - 1) num_x_steps)"
  shows "(yv - fst (target_centroid_int e), xv - snd (target_centroid_int e)) \<in> set (grid e)"
  using assms by (auto simp: set_grid)

lemma shifted_2d_memI:
  "g \<in> set (grid e) \<Longrightarrow> shift_inds (target_inds e) g \<in> set (shifted_target_inds_2d e)"
  by (simp add: shifted_target_inds_2d_def)

lemma zero_in_grid_1x1: "(0, 0) \<in> set (grid scene_1x1)"
  using grid_memI [of 0 scene_1x1 0]
  by (simp add: linspace_int_first num_x_steps_def num_y_steps_def centroid_1x1)

lemma identity_candidate_1x1: "[(0, 0)] \<in> set (shifted_target_inds_2d scene_1x1)"
  using shifted_2d_memI [OF zero_in_grid_1x1]
  by (simp add: shift_inds_def target_inds_1x1)

section \<open>The IoU threshold\<close>

lemma iou_thresh_2d_le: "iou_thresh_2d n \<le> 9 / 10"
  unfolding iou_thresh_2d_def by (rule min.cobounded1)

lemma iou_thresh_3d_le: "iou_thresh_3d n \<le> 9 / 10"
  unfolding iou_thresh_3d_def by (rule min.cobounded1)

lemma iou_thresh_3d_pos: "0 < n \<Longrightarrow> 0 < iou_thresh_3d n"
  by (simp add: iou_thresh_3d_def max_def)

lemma iou_thresh_2d_large: "3 \<le> n \<Longrightarrow> iou_thresh_2d n = iou_thresh_3d n"
  by (simp add: iou_thresh_2d_def iou_thresh_3d_def max_def)

text \<open>
  C2. The threshold is \<open>min(0.9, max(n - 2, 1) / n)\<close> in the 3D search only. The 2D search
  computes \<open>min(0.9, (n - 2) / n)\<close>: for a modal mask of one pixel its threshold is \<open>-1\<close> and
  for one of two pixels it is \<open>0\<close>, where the 3D search has \<open>0.9\<close> and \<open>0.5\<close>.
\<close>

theorem iou_thresh_2d_not_positive:
  "iou_thresh_2d 1 = - 1 \<and> iou_thresh_2d 2 = 0
   \<and> iou_thresh_3d 1 = 9 / 10 \<and> iou_thresh_3d 2 = 1 / 2"
  by (simp add: iou_thresh_2d_def iou_thresh_3d_def)

section \<open>The occlusion test\<close>

text \<open>
  C6. For every candidate of either search and every pixel \<open>p\<close> of it, the pixel is marked
  visible exactly when its coordinate before the reflection lies inside the frame and the
  plane depth there, less the depth offset of pixel \<open>p\<close> of the target, is strictly below
  the scene depth there. A pixel outside the frame is never visible.
\<close>

theorem visible_pixel_iff:
  assumes "cand \<in> set (shifted_target_inds_2d e) \<union> set (shifted_target_inds_3d e)"
    and "p < length (target_inds e)"
  shows "visible_shifted_target_mask e cand ! p \<longleftrightarrow>
     inside e (cand ! p)
     \<and> plane_depth e (nat (fst (cand ! p))) (nat (snd (cand ! p)))
         - (plane_depth e (nat (fst (target_inds e ! p))) (nat (snd (target_inds e ! p)))
            - target_depth e (nat (fst (target_inds e ! p))) (nat (snd (target_inds e ! p))))
       < full_depth e (nat (fst (cand ! p))) (nat (snd (cand ! p)))"
proof -
  have "length cand = length (target_inds e)"
    using assms(1) length_candidate_2d length_candidate_3d by blast
  then show ?thesis using assms(2) by (simp add: visible_nth)
qed

theorem visible_pixel_iff_witness:
  "[(0, 0)] \<in> set (shifted_target_inds_2d scene_1x1) \<union> set (shifted_target_inds_3d scene_1x1)
   \<and> (0::nat) < length (target_inds scene_1x1)
   \<and> visible_shifted_target_mask scene_1x1 [(0, 0)] ! 0
   \<and> inside scene_1x1 (0, 0)
   \<and> plane_depth scene_1x1 0 0 - (plane_depth scene_1x1 0 0 - target_depth scene_1x1 0 0)
       < full_depth scene_1x1 0 0"
proof -
  have c: "[(0, 0)] \<in> set (shifted_target_inds_2d scene_1x1) \<union> set (shifted_target_inds_3d scene_1x1)"
    using identity_candidate_1x1 by simp
  have p: "(0::nat) < length (target_inds scene_1x1)"
    by (simp add: target_inds_1x1)
  have r: "inside scene_1x1 (0, 0)
     \<and> plane_depth scene_1x1 0 0 - (plane_depth scene_1x1 0 0 - target_depth scene_1x1 0 0)
       < full_depth scene_1x1 0 0"
    by (simp add: inside_def scene_1x1_def render_defs)
  show ?thesis
    using visible_pixel_iff [OF c p] c p r by (simp add: target_inds_1x1)
qed

section \<open>The candidate with zero translation\<close>

lemma reflected_target_inds: "reflected e (target_inds e) = target_inds e"
  unfolding reflected_def by (rule map_idI) (simp add: reflect_pixel_inside target_inds_inside)

lemma in_bounds_inside: "inside e q \<Longrightarrow> in_bounds q"
  by (simp add: inside_def in_bounds_def)

lemma target_modal_mask_iff: "target_modal_mask e r c \<longleftrightarrow> target_depth e r c < full_depth e r c"
  by (simp add: render_defs)

lemma visible_identity:
  "visible_shifted_target_mask e (target_inds e) = target_inds_mask e"
proof -
  have "visible_shifted_target_mask e (target_inds e)
      = map (\<lambda>t. take_at (camera_height e) (camera_width e) (plane_depth e) t
                   - (take_at (camera_height e) (camera_width e) (plane_depth e) t
                      - take_at (camera_height e) (camera_width e) (target_depth e) t)
                 < take_at (camera_height e) (camera_width e) (full_depth e) t
                 \<and> in_bounds t) (target_inds e)"
    by (simp add: visible_shifted_target_mask_def reflected_target_inds target_depth_offset_def
        zip_map2 zip_same_conv_map comp_def)
  also have "\<dots> = map (take_at (camera_height e) (camera_width e) (target_modal_mask e))
                     (target_inds e)"
  proof (rule map_cong)
    fix t assume "t \<in> set (target_inds e)"
    then have "in_bounds t" using in_bounds_inside target_inds_inside by blast
    then show "(take_at (camera_height e) (camera_width e) (plane_depth e) t
                   - (take_at (camera_height e) (camera_width e) (plane_depth e) t
                      - take_at (camera_height e) (camera_width e) (target_depth e) t)
                 < take_at (camera_height e) (camera_width e) (full_depth e) t
                 \<and> in_bounds t)
        = take_at (camera_height e) (camera_width e) (target_modal_mask e) t"
      by (simp add: take_at_def target_modal_mask_iff)
  qed simp
  finally show ?thesis by (simp add: target_inds_mask_def)
qed

lemma select_by_target_inds_mask:
  "select_by (target_inds e) (target_inds_mask e)
   = filter (take_at (camera_height e) (camera_width e) (target_modal_mask e)) (target_inds e)"
  unfolding target_inds_mask_def by (rule select_by_map)

lemma count_true_map: "count_true (map P xs) = int (length (filter P xs))"
  by (induction xs) (auto simp: count_true_def)

lemma intersection_identity:
  "intersection e (target_inds e) = count_true (target_inds_mask e)"
proof -
  let ?H = "camera_height e" and ?W = "camera_width e"
  let ?A = "\<lambda>(r, c). plane_depth e r c > target_depth e r c"
  let ?M = "\<lambda>(r::nat, c::nat). target_modal_mask e r c"
  let ?J = "\<lambda>(r::nat, c::nat). (int r, int c)"
  have ti: "target_inds e = map ?J (filter ?A (all_pixels ?H ?W))"
    by (simp add: target_inds_def np_where_def)
  have take: "\<And>x. take_at ?H ?W (target_modal_mask e) (?J x) = ?M x" if "x \<in> set (all_pixels ?H ?W)" for x
    using that by (auto simp: take_at_def wrap_index_def)
  have vis: "visible_target_inds e (target_inds e)
      = filter (take_at ?H ?W (target_modal_mask e)) (target_inds e)"
    by (simp add: visible_target_inds_def reflected_target_inds visible_identity
        select_by_target_inds_mask)
  have mem: "(target_modal_mask e r c \<and> (int r, int c) \<in> set (visible_target_inds e (target_inds e)))
      \<longleftrightarrow> (?A (r, c) \<and> ?M (r, c))" if "r < ?H" "c < ?W" for r c
  proof -
    have "(int r, int c) \<in> set (target_inds e) \<longleftrightarrow> plane_depth e r c > target_depth e r c"
      using that by (auto simp: target_inds_def set_np_where)
    then show ?thesis
      by (auto simp: vis take_at_def wrap_index_def)
  qed
  have "filter (\<lambda>(r, c). target_modal_mask e r c
                  \<and> (int r, int c) \<in> set (visible_target_inds e (target_inds e)))
               (all_pixels ?H ?W)
        = filter (\<lambda>x. ?A x \<and> ?M x) (all_pixels ?H ?W)"
  proof (rule filter_cong [OF refl])
    fix x assume x: "x \<in> set (all_pixels ?H ?W)"
    obtain r c where rc: "x = (r, c)" by (cases x)
    then have "r < ?H" "c < ?W" using x by auto
    then show "(case x of (r, c) \<Rightarrow> target_modal_mask e r c
                  \<and> (int r, int c) \<in> set (visible_target_inds e (target_inds e)))
          = (?A x \<and> ?M x)"
      using mem [of r c] rc by simp
  qed
  then have "intersection e (target_inds e)
      = int (length (filter (\<lambda>x. ?A x \<and> ?M x) (all_pixels ?H ?W)))"
    by (simp add: intersection_def)
  also have "\<dots> = int (length (filter ?M (filter ?A (all_pixels ?H ?W))))"
    by (simp add: conj_commute)
  also have "\<dots> = int (length (filter (take_at ?H ?W (target_modal_mask e)) (target_inds e)))"
    unfolding ti filter_map length_map comp_def
    by (rule arg_cong [where f = "\<lambda>xs. int (length xs)"], rule filter_cong)
      (auto simp: take_at_def wrap_index_def)
  finally show ?thesis by (simp add: target_inds_mask_def count_true_map)
qed

lemma count_true_pos_iff: "0 < count_true bs \<longleftrightarrow> list_ex (\<lambda>b. b) bs"
  by (induction bs) (auto simp: count_true_def)

lemma mask_iou_identity:
  assumes "list_ex (\<lambda>b. b) (target_inds_mask e)"
  shows "mask_iou e (target_inds e) = 1"
proof -
  have "0 < count_true (target_inds_mask e)" using assms by (simp add: count_true_pos_iff)
  then show ?thesis
    by (simp add: mask_iou_def union_count_def intersection_identity visible_identity)
qed

lemma filter_inside_target_inds: "filter (inside e) (target_inds e) = target_inds e"
  by (simp add: filter_id_conv target_inds_inside)

lemma iou_match_identity:
  assumes "list_ex (\<lambda>b. b) (target_inds_mask e)" "t \<le> 9 / 10"
  shows "iou_match e t (target_inds e) = target_inds e"
  using assms
  by (simp add: iou_match_def mask_iou_identity select_in_bounds filter_inside_target_inds)

lemma np_any_iff: "np_any inds \<longleftrightarrow> (\<exists>q \<in> set inds. q \<noteq> (0, 0))"
  by (auto simp: np_any_def list_ex_iff prod_eq_iff)

lemma set_iou_matches:
  "set (iou_matches e t cands) = (\<Union>cand \<in> set cands. set (iou_match e t cand))"
  by (simp add: iou_matches_def)

lemma matching_visible:
  assumes "list_ex (\<lambda>b. b) (target_inds_mask e)"
  shows "matching_target_inds e thresh cands =
     (if np_any (iou_matches e (thresh (count_true (target_inds_mask e))) cands)
      then iou_matches e (thresh (count_true (target_inds_mask e))) cands
      else target_inds e)"
  using assms by (simp add: matching_target_inds_def Let_def)

lemma shift_inds_zero [simp]: "shift_inds inds (0, 0) = inds"
  by (simp add: shift_inds_def)

lemma target_inds_mask_1x1: "target_inds_mask scene_1x1 = [True]"
  by (simp add: target_inds_mask_def target_inds_1x1 take_at_def)

lemma linspace_100_51:
  assumes "x \<in> set (linspace_int 100 51)"
  shows "even x"
proof -
  obtain i where i: "i < 51" "x = linspace_int 100 51 ! i"
    using assms by (metis in_set_conv_nth length_linspace_int)
  have "x = (int i * 100) div 50" using i by (simp add: linspace_int_nth)
  also have "\<dots> = 2 * int i" by simp
  finally show ?thesis by simp
qed

lemma grid_row_visible:
  assumes "g \<in> set (grid scene_row_visible)"
  shows "fst g = 0 \<and> odd (snd g)"
proof -
  obtain yv xv where g: "g = (yv - 0, xv - 1)"
    and yv: "yv \<in> set (linspace_int 0 num_y_steps)"
    and xv: "xv \<in> set (linspace_int 100 num_x_steps)"
    using assms by (auto simp: set_grid centroid_row_visible)
  have "yv = 0" using yv by (rule linspace_int_zero)
  moreover have "even xv" using xv by (simp add: num_x_steps_def linspace_100_51)
  ultimately show ?thesis using g by simp
qed

lemma target_inds_mask_row_visible: "target_inds_mask scene_row_visible = [True]"
  by (simp add: target_inds_mask_def target_inds_row_visible take_at_def wrap_index_def)

text \<open>
  C7, as the code has it. The grid has 51 columns and 38 rows of sample positions, so the
  translation that leaves the target in place is a candidate only when the truncated
  centroid is one of them. When it is, and the target has a visible pixel, the 2D search
  has the target's own index array among its candidates, the IoU of that candidate is 1,
  and every pixel of the target is in the match set.
\<close>

theorem identity_candidate_matches:
  assumes "(0, 0) \<in> set (grid e)" and "list_ex (\<lambda>b. b) (target_inds_mask e)"
  shows "target_inds e \<in> set (shifted_target_inds_2d e)
     \<and> mask_iou e (target_inds e) = 1
     \<and> set (target_inds e)
         \<subseteq> set (matching_target_inds e iou_thresh_2d (shifted_target_inds_2d e))"
proof -
  have c: "target_inds e \<in> set (shifted_target_inds_2d e)"
    using shifted_2d_memI [OF assms(1)] by simp
  let ?t = "iou_thresh_2d (count_true (target_inds_mask e))"
  have "iou_match e ?t (target_inds e) = target_inds e"
    by (rule iou_match_identity [OF assms(2) iou_thresh_2d_le])
  then have "set (target_inds e) \<subseteq> set (iou_matches e ?t (shifted_target_inds_2d e))"
    using c by (auto simp: set_iou_matches)
  then have "set (target_inds e)
         \<subseteq> set (matching_target_inds e iou_thresh_2d (shifted_target_inds_2d e))"
    using assms(2) by (simp add: matching_visible)
  then show ?thesis using c assms(2) by (simp add: mask_iou_identity)
qed

theorem identity_candidate_matches_witness:
  "(0, 0) \<in> set (grid scene_1x1) \<and> list_ex (\<lambda>b. b) (target_inds_mask scene_1x1)
   \<and> [(0, 0)] \<in> set (shifted_target_inds_2d scene_1x1)
   \<and> mask_iou scene_1x1 [(0, 0)] = 1
   \<and> (0, 0) \<in> set (matching_target_inds scene_1x1 iou_thresh_2d (shifted_target_inds_2d scene_1x1))"
proof -
  have v: "list_ex (\<lambda>b. b) (target_inds_mask scene_1x1)"
    by (simp add: target_inds_mask_1x1)
  show ?thesis
    using identity_candidate_matches [OF zero_in_grid_1x1 v] zero_in_grid_1x1 v
    by (simp add: target_inds_1x1)
qed

text \<open>
  C7 as stated fails: in a row of 101 pixels the grid columns are the even ones, and for an
  unoccluded target at column 1 no candidate has zero translation.
\<close>

theorem no_identity_candidate:
  "list_all (\<lambda>b. b) (target_inds_mask scene_row_visible)
   \<and> (0, 0) \<notin> set (grid scene_row_visible)
   \<and> target_inds scene_row_visible \<notin> set (shifted_target_inds_2d scene_row_visible)"
proof -
  have g: "(0, 0) \<notin> set (grid scene_row_visible)"
    using grid_row_visible [of "(0, 0)"] by auto
  have "target_inds scene_row_visible \<notin> set (shifted_target_inds_2d scene_row_visible)"
  proof
    assume "target_inds scene_row_visible \<in> set (shifted_target_inds_2d scene_row_visible)"
    then obtain g where "g \<in> set (grid scene_row_visible)"
      and "shift_inds [(0, 1)] g = [(0, 1)]"
      by (auto simp: shifted_target_inds_2d_def target_inds_row_visible)
    then show False using grid_row_visible [of g] by (simp add: shift_inds_def)
  qed
  then show ?thesis using g by (simp add: target_inds_mask_row_visible)
qed

section \<open>The masks of the target\<close>

text \<open>
  C5, as the code has it. The amodal pixels are those where the plane-only depth is
  strictly greater than the depth of the render with the target. The modal mask that
  \<^verbatim>\<open>render_target_modal_mask\<close> returns holds where that depth is strictly below the depth
  of the scene rendered without the target; it has no epsilon and no test of positivity.
  All of them are functions of the three renders alone.
\<close>

theorem mask_extractor:
  "set (target_inds e)
     = {(int r, int c) | r c. r < camera_height e \<and> c < camera_width e
                              \<and> plane_depth e r c > target_depth e r c}
   \<and> distinct (target_inds e)
   \<and> (target_modal_mask e r c \<longleftrightarrow> target_depth e r c < full_depth e r c)
   \<and> plane_depth e = render_plane e \<and> target_depth e = render_plane_and_target e
   \<and> full_depth e = render_without_target e"
  by (simp add: target_inds_def set_np_where target_modal_mask_iff)
    (simp add: render_defs)

text \<open>
  C5 as stated fails: the mask with the epsilon is the one of
  \<^verbatim>\<open>render_segmentation_images\<close>. On \<open>scene_1x1\<close> (target at depth 1 before a scene at
  depth 2) the pixel is modal for the search and not for that formula; on
  \<open>scene_row_empty\<close> (both depths 2) it is the other way round.
\<close>

theorem modal_mask_counterexample:
  "target_modal_mask scene_1x1 0 0
   \<and> \<not> segmentation_modal_mask (target_depth scene_1x1) (full_depth scene_1x1) 0 0
   \<and> \<not> target_modal_mask scene_row_empty 0 0
   \<and> segmentation_modal_mask (target_depth scene_row_empty) (full_depth scene_row_empty) 0 0"
  by (simp add: segmentation_modal_mask_def)

section \<open>Index safety of the 2D search\<close>

text \<open>
  In the 2D search a coordinate before the reflection is a target coordinate plus a grid
  sample less the truncated centroid, all three within \<open>[0, bound)\<close>: it lies strictly
  between \<open>-bound\<close> and \<open>2 * bound\<close>, and its reflection is an index NumPy accepts.
\<close>

lemma sum_list_bounds:
  assumes "\<And>x. x \<in> set xs \<Longrightarrow> 0 \<le> f x \<and> f x \<le> (b::int)"
  shows "0 \<le> sum_list (map f xs) \<and> sum_list (map f xs) \<le> b * int (length xs)"
  using assms
proof (induction xs)
  case Nil
  then show ?case by simp
next
  case (Cons a xs)
  have a: "0 \<le> f a \<and> f a \<le> b" using Cons.prems by simp
  have "0 \<le> sum_list (map f xs) \<and> sum_list (map f xs) \<le> b * int (length xs)"
    using Cons.IH Cons.prems by simp
  then show ?case using a by (simp add: algebra_simps)
qed

lemma mean_bounds:
  assumes "xs \<noteq> []" "\<And>x. x \<in> set xs \<Longrightarrow> 0 \<le> f x \<and> f x \<le> (b::int)"
  shows "0 \<le> astype_int (real_of_int (sum_list (map f xs)) / real (length xs))
       \<and> astype_int (real_of_int (sum_list (map f xs)) / real (length xs)) \<le> b"
proof -
  let ?S = "sum_list (map f xs)" and ?n = "int (length xs)"
  have n: "0 < ?n" using assms(1) by simp
  have "0 \<le> ?S \<and> ?S \<le> b * ?n" by (rule sum_list_bounds) (rule assms(2))
  then have S: "0 \<le> ?S" "?S \<le> b * ?n" by simp_all
  have "real_of_int ?S / real (length xs) = real_of_int ?S / real_of_int ?n" by simp
  then have eq: "astype_int (real_of_int ?S / real (length xs)) = ?S div ?n"
    using astype_int_nonneg_div [OF S(1) n] by simp
  have "?S div ?n \<le> (b * ?n) div ?n" using S(2) n by (intro zdiv_mono1) auto
  then have "?S div ?n \<le> b" using n by simp
  moreover have "0 \<le> ?S div ?n" using S(1) n by (simp add: pos_imp_zdiv_nonneg_iff)
  ultimately show ?thesis using eq by simp
qed

lemma centroid_int_bounds:
  assumes "target_inds e \<noteq> []"
  shows "0 \<le> fst (target_centroid_int e) \<and> fst (target_centroid_int e) \<le> int (camera_height e) - 1
       \<and> 0 \<le> snd (target_centroid_int e) \<and> snd (target_centroid_int e) \<le> int (camera_width e) - 1"
proof -
  have r: "\<And>t. t \<in> set (target_inds e) \<Longrightarrow> 0 \<le> fst t \<and> fst t \<le> int (camera_height e) - 1"
    using target_inds_inside by (fastforce simp: inside_def)
  have c: "\<And>t. t \<in> set (target_inds e) \<Longrightarrow> 0 \<le> snd t \<and> snd t \<le> int (camera_width e) - 1"
    using target_inds_inside by (fastforce simp: inside_def)
  show ?thesis
    using mean_bounds [OF assms r] mean_bounds [OF assms c] assms
    by (simp add: target_centroid_int_def target_centroid_def)
qed

lemma valid_reflect:
  assumes "- int n < x" "x < 2 * int n"
  shows "valid_index n (reflect n x)"
  using assms by (auto simp: valid_index_def reflect_def)

lemma grid_bounds:
  assumes "target_inds e \<noteq> []" "g \<in> set (grid e)"
  shows "- int (camera_height e) < fst g \<and> fst g < int (camera_height e)
       \<and> - int (camera_width e) < snd g \<and> snd g < int (camera_width e)"
proof -
  obtain t where t: "t \<in> set (target_inds e)" using assms(1) by (cases "target_inds e") auto
  then have pos: "0 \<le> int (camera_height e) - 1" "0 \<le> int (camera_width e) - 1"
    using target_inds_inside [OF t] by (auto simp: inside_def)
  obtain yv xv where g: "g = (yv - fst (target_centroid_int e), xv - snd (target_centroid_int e))"
    and yv: "yv \<in> set (linspace_int (int (camera_height e) - 1) num_y_steps)"
    and xv: "xv \<in> set (linspace_int (int (camera_width e) - 1) num_x_steps)"
    using assms(2) by (auto simp: set_grid)
  show ?thesis
    using linspace_int_range [OF pos(1) yv] linspace_int_range [OF pos(2) xv]
      centroid_int_bounds [OF assms(1)] g by simp
qed

lemma indices_valid_2d: "indices_valid e (shifted_target_inds_2d e)"
proof -
  have "valid_pixel (camera_height e) (camera_width e) q"
    if cm: "cand \<in> set (shifted_target_inds_2d e)" and qm: "q \<in> set (reflected e cand)"
    for cand q
  proof -
    have "cand \<in> shift_inds (target_inds e) ` set (grid e)"
      using cm by (simp add: shifted_target_inds_2d_def)
    then obtain g where g: "g \<in> set (grid e)" and cand: "cand = shift_inds (target_inds e) g"
      by blast
    obtain t where t: "t \<in> set (target_inds e)"
      and q: "q = reflect_pixel e (fst t + fst g, snd t + snd g)"
      using qm cand by (auto simp: reflected_def shift_inds_def)
    have ne: "target_inds e \<noteq> []" using t by auto
    have "inside e t" using t by (rule target_inds_inside)
    then show ?thesis
      using grid_bounds [OF ne g] q
      by (simp add: valid_pixel_def reflect_pixel_def inside_def valid_reflect)
  qed
  then show ?thesis by (auto simp: indices_valid_def list_all_iff)
qed

lemma inside_valid: "inside e q \<Longrightarrow> valid_pixel (camera_height e) (camera_width e) q"
  by (simp add: inside_def valid_pixel_def valid_index_def)

lemma iou_match_inside: "q \<in> set (iou_match e t cand) \<Longrightarrow> inside e q"
  by (auto simp: iou_match_def select_in_bounds split: if_splits)

lemma occluded_match_inside: "q \<in> set (occluded_match e cand) \<Longrightarrow> inside e q"
  by (auto simp: occluded_match_def select_in_bounds split: if_splits)

lemma matching_inside: "q \<in> set (matching_target_inds e thresh cands) \<Longrightarrow> inside e q"
  by (auto simp: matching_target_inds_def Let_def occluded_matches_def iou_matches_def
      dest: iou_match_inside occluded_match_inside target_inds_inside split: if_splits)

lemma matching_valid:
  "list_all (valid_pixel (camera_height e) (camera_width e)) (matching_target_inds e thresh cands)"
  by (auto simp: list_all_iff dest: matching_inside inside_valid)

lemma distribution_valid:
  assumes "indices_valid e cands" "0 < camera_height e" "0 < camera_width e"
  shows "distribution e thresh cands =
     Inr (\<lambda>r c. 0 < hits (camera_height e) (camera_width e) (matching_target_inds e thresh cands) r c,
          \<lambda>r c. if image_max (camera_height e) (camera_width e)
                      (hits (camera_height e) (camera_width e) (matching_target_inds e thresh cands)) = 0
                 then 0
                 else (255 * hits (camera_height e) (camera_width e)
                              (matching_target_inds e thresh cands) r c)
                      div image_max (camera_height e) (camera_width e)
                      (hits (camera_height e) (camera_width e) (matching_target_inds e thresh cands)))"
  using assms by (simp add: distribution_def accumulate_def matching_valid Let_def)

lemma find_target_distribution_2d_no_index_error:
  "find_target_distribution_2d e \<noteq> Inl IndexError"
  by (simp add: find_target_distribution_2d_def distribution_def accumulate_def
      indices_valid_2d matching_valid Let_def)

lemma hits_pos_iff:
  assumes "\<And>q. q \<in> set inds \<Longrightarrow> 0 \<le> fst q \<and> 0 \<le> snd q"
  shows "0 < hits H W inds r c \<longleftrightarrow> (int r, int c) \<in> set inds"
proof -
  have "0 < hits H W inds r c \<longleftrightarrow> (\<exists>q \<in> set inds. wrap_index H (fst q) = r \<and> wrap_index W (snd q) = c)"
    by (auto simp: hits_def filter_empty_conv)
  also have "\<dots> \<longleftrightarrow> (int r, int c) \<in> set inds"
  proof
    assume "\<exists>q \<in> set inds. wrap_index H (fst q) = r \<and> wrap_index W (snd q) = c"
    then obtain q where q: "q \<in> set inds" "wrap_index H (fst q) = r" "wrap_index W (snd q) = c"
      by blast
    then have "q = (int r, int c)" using assms [OF q(1)] by (auto simp: wrap_index_def prod_eq_iff)
    then show "(int r, int c) \<in> set inds" using q(1) by simp
  next
    assume "(int r, int c) \<in> set inds"
    then show "\<exists>q \<in> set inds. wrap_index H (fst q) = r \<and> wrap_index W (snd q) = c"
      by (force simp: wrap_index_def)
  qed
  finally show ?thesis .
qed

section \<open>The fallback of the visible branch\<close>

text \<open>
  C10. When the target has a visible pixel, both searches replace the matched indices by
  the indices of the target exactly when every entry of the matched-index array is zero:
  when no candidate matched, and also when candidates matched and all their selected
  pixels are \<open>(0, 0)\<close>.
\<close>

theorem fallback_iff_all_zero:
  assumes "list_ex (\<lambda>b. b) (target_inds_mask e)"
  shows "matching_target_inds e iou_thresh_2d (shifted_target_inds_2d e)
      = (if \<forall>q \<in> set (iou_matches e (iou_thresh_2d (count_true (target_inds_mask e)))
                            (shifted_target_inds_2d e)). q = (0, 0)
         then target_inds e
         else iou_matches e (iou_thresh_2d (count_true (target_inds_mask e)))
                (shifted_target_inds_2d e))
    \<and> matching_target_inds e iou_thresh_3d (shifted_target_inds_3d e)
      = (if \<forall>q \<in> set (iou_matches e (iou_thresh_3d (count_true (target_inds_mask e)))
                            (shifted_target_inds_3d e)). q = (0, 0)
         then target_inds e
         else iou_matches e (iou_thresh_3d (count_true (target_inds_mask e)))
                (shifted_target_inds_3d e))"
  using assms by (simp add: matching_visible np_any_iff)

lemma set_linspace_int_zero: "0 < num \<Longrightarrow> set (linspace_int 0 num) = {0}"
  using linspace_int_first [of num 0] linspace_int_zero by blast

lemma set_grid_1x1: "set (grid scene_1x1) = {(0, 0)}"
  by (simp add: set_grid centroid_1x1 set_linspace_int_zero num_x_steps_def num_y_steps_def)

lemma candidates_1x1: "set (shifted_target_inds_2d scene_1x1) = {[(0, 0)]}"
  by (simp add: shifted_target_inds_2d_def set_grid_1x1 target_inds_1x1)

lemma iou_matches_1x1:
  "set (iou_matches scene_1x1 (iou_thresh_2d (count_true (target_inds_mask scene_1x1)))
         (shifted_target_inds_2d scene_1x1)) = {(0, 0)}"
proof -
  have v: "list_ex (\<lambda>b. b) (target_inds_mask scene_1x1)"
    by (simp add: target_inds_mask_1x1)
  have "iou_match scene_1x1 (iou_thresh_2d (count_true (target_inds_mask scene_1x1)))
          (target_inds scene_1x1) = target_inds scene_1x1"
    by (rule iou_match_identity [OF v iou_thresh_2d_le])
  then show ?thesis
    by (simp add: set_iou_matches candidates_1x1 target_inds_1x1)
qed

text \<open>On \<open>scene_1x1\<close> every candidate matches, every matched pixel is \<open>(0, 0)\<close>, and the
  matches are replaced by the indices of the target.\<close>

theorem fallback_iff_all_zero_witness:
  "list_ex (\<lambda>b. b) (target_inds_mask scene_1x1)
   \<and> set (iou_matches scene_1x1 (iou_thresh_2d (count_true (target_inds_mask scene_1x1)))
         (shifted_target_inds_2d scene_1x1)) = {(0, 0)}
   \<and> matching_target_inds scene_1x1 iou_thresh_2d (shifted_target_inds_2d scene_1x1)
      = target_inds scene_1x1"
proof -
  have v: "list_ex (\<lambda>b. b) (target_inds_mask scene_1x1)"
    by (simp add: target_inds_mask_1x1)
  show ?thesis
    using fallback_iff_all_zero [OF v] v iou_matches_1x1 by simp
qed

section \<open>Which pixels are selected\<close>

text \<open>
  C4, as the code has it. The in-bounds mask is applied pixel by pixel: a candidate that
  passes the test of its regime (no visible pixel when the target is fully occluded, an
  IoU at or above the threshold otherwise) contributes exactly those of its pixels whose
  coordinate before the reflection lies inside the frame, whether or not its other pixels
  do. No pixel outside the frame is selected.
\<close>

theorem matches_are_inside_pixels:
  "occluded_matches e cands
     = concat (map (\<lambda>cand. if list_ex (\<lambda>b. b) (visible_shifted_target_mask e cand) then []
                            else filter (inside e) cand) cands)
   \<and> iou_matches e t cands
     = concat (map (\<lambda>cand. if mask_iou e cand \<ge> t then filter (inside e) cand else []) cands)"
proof -
  have a: "occluded_match e
      = (\<lambda>cand. if list_ex (\<lambda>b. b) (visible_shifted_target_mask e cand) then []
                 else filter (inside e) cand)"
    by (rule ext) (simp add: occluded_match_def select_in_bounds)
  have b: "iou_match e t
      = (\<lambda>cand. if mask_iou e cand \<ge> t then filter (inside e) cand else [])"
    by (rule ext) (simp add: iou_match_def select_in_bounds)
  show ?thesis
    unfolding occluded_matches_def iou_matches_def a b by simp
qed

lemma target_inds_mask_1x2: "target_inds_mask scene_1x2 = [False, False]"
  by (simp add: target_inds_mask_def target_inds_1x2 take_at_def)

lemma one_in_linspace_1: "1 \<in> set (linspace_int 1 51)"
  using linspace_int_mem [of 1 50 51] by simp

lemma shift_one_in_grid_1x2: "(0, 1) \<in> set (grid scene_1x2)"
  using grid_memI [of 0 scene_1x2 1] one_in_linspace_1
  by (simp add: linspace_int_first num_x_steps_def num_y_steps_def centroid_1x2)

lemma offset_1x2: "target_depth_offset scene_1x2 = [1, 1]"
  by (simp add: target_depth_offset_def target_inds_1x2 take_at_def)

text \<open>
  C4 as stated fails: on \<open>scene_1x2\<close>, whose target is fully occluded, the candidate moved one
  column to the right has its second pixel outside the frame and no visible pixel; its
  first pixel is selected.
\<close>

theorem partly_out_of_bounds_candidate_selected:
  "\<not> list_ex (\<lambda>b. b) (target_inds_mask scene_1x2)
   \<and> [(0, 1), (0, 2)] \<in> set (shifted_target_inds_2d scene_1x2)
   \<and> in_bounds_mask scene_1x2 [(0, 1), (0, 2)] = [True, False]
   \<and> occluded_match scene_1x2 [(0, 1), (0, 2)] = [(0, 1)]
   \<and> (0, 1) \<in> set (occluded_matches scene_1x2 (shifted_target_inds_2d scene_1x2))"
proof -
  have c: "[(0, 1), (0, 2)] \<in> set (shifted_target_inds_2d scene_1x2)"
    using shifted_2d_memI [OF shift_one_in_grid_1x2]
    by (simp add: shift_inds_def target_inds_1x2)
  have m: "in_bounds_mask scene_1x2 [(0, 1), (0, 2)] = [True, False]"
    by (simp add: in_bounds_mask_def reflected_def reflect_pixel_def reflect_def in_bounds_def)
  have o: "occluded_match scene_1x2 [(0, 1), (0, 2)] = [(0, 1)]"
    by (simp add: occluded_match_def visible_shifted_target_mask_def offset_1x2 take_at_def
        m select_by_def in_bounds_def reflected_def reflect_pixel_def reflect_def)
  have "(0, 1) \<in> set (occluded_matches scene_1x2 (shifted_target_inds_2d scene_1x2))"
    unfolding occluded_matches_def using c o by force
  then show ?thesis using c m o by (simp add: target_inds_mask_1x2)
qed

section \<open>A fully occluded target without a matching candidate\<close>

lemma accumulate_nil:
  "0 < H \<Longrightarrow> 0 < W \<Longrightarrow> accumulate H W [] = Inr (\<lambda>r c. False, \<lambda>r c. 0)"
  by (simp add: accumulate_def hits_def Let_def)

lemma target_inds_mask_row_occluded: "target_inds_mask scene_row_occluded = [False]"
  by (simp add: target_inds_mask_def target_inds_row_occluded take_at_def)

lemma offset_row_occluded: "target_depth_offset scene_row_occluded = [1]"
  by (simp add: target_depth_offset_def target_inds_row_occluded take_at_def wrap_index_def)

lemma candidates_row_occluded:
  assumes "cand \<in> set (shifted_target_inds_2d scene_row_occluded)"
  shows "\<exists>x. cand = [(0, x)] \<and> even x \<and> 0 \<le> x \<and> x \<le> 100"
proof -
  have "cand \<in> shift_inds [(0, 1)] ` set (grid scene_row_occluded)"
    using assms by (simp add: shifted_target_inds_2d_def target_inds_row_occluded)
  then obtain g where g: "g \<in> set (grid scene_row_occluded)" and cand: "cand = shift_inds [(0, 1)] g"
    by blast
  obtain yv xv where gv: "g = (yv - 0, xv - 1)"
    and yv: "yv \<in> set (linspace_int 0 num_y_steps)"
    and xv: "xv \<in> set (linspace_int 100 num_x_steps)"
    using g by (auto simp: set_grid centroid_row_occluded)
  have "yv = 0" using yv by (rule linspace_int_zero)
  moreover have "even xv" using xv by (simp add: num_x_steps_def linspace_100_51)
  moreover have "0 \<le> xv \<and> xv \<le> 100" using linspace_int_range [OF _ xv] by simp
  ultimately show ?thesis using cand gv by (simp add: shift_inds_def)
qed

lemma occluded_match_row_occluded:
  assumes "cand \<in> set (shifted_target_inds_2d scene_row_occluded)"
  shows "occluded_match scene_row_occluded cand = []"
proof -
  obtain x where x: "cand = [(0, x)]" "even x" "0 \<le> x" "x \<le> 100"
    using candidates_row_occluded [OF assms] by blast
  have "nat x \<noteq> 1" using x(2,3) by (metis int_nat_eq odd_one of_nat_1)
  then show ?thesis
    using x
    by (simp add: occluded_match_def visible_shifted_target_mask_def offset_row_occluded
        reflected_def reflect_pixel_def reflect_def take_at_def wrap_index_def in_bounds_def)
qed

lemma matching_row_occluded:
  "matching_target_inds scene_row_occluded iou_thresh_2d
     (shifted_target_inds_2d scene_row_occluded) = []"
  by (simp add: matching_target_inds_def target_inds_mask_row_occluded occluded_matches_def
      occluded_match_row_occluded)

text \<open>
  C1. The branch for a fully occluded target has no fallback. On \<open>scene_row_occluded\<close> the
  amodal set is not empty, the occluded target would be visible at each of the grid
  columns, no candidate matches, and the 2D search returns a binary image with no true
  pixel and an intensity image with no positive pixel.
\<close>

theorem occluded_target_without_match:
  "target_inds scene_row_occluded = [(0, 1)]
   \<and> find_target_distribution_2d scene_row_occluded = Inr (\<lambda>r c. False, \<lambda>r c. 0)"
  by (simp add: find_target_distribution_2d_def distribution_def indices_valid_2d
      matching_row_occluded accumulate_nil target_inds_row_occluded)

section \<open>A target with no pixel\<close>

lemma empty_target_matching:
  assumes "target_inds e = []" "\<And>cand. cand \<in> set cands \<Longrightarrow> cand = []"
  shows "indices_valid e cands \<and> matching_target_inds e thresh cands = []"
proof -
  have "occluded_match e [] = []"
    by (simp add: occluded_match_def select_by_def reflected_def in_bounds_mask_def)
  then have "occluded_matches e cands = []"
    using assms(2) by (auto simp: occluded_matches_def)
  moreover have "indices_valid e cands"
    unfolding indices_valid_def list_all_iff
  proof
    fix cand assume "cand \<in> set cands"
    then have "cand = []" by (rule assms(2))
    then show "\<forall>q \<in> set (reflected e cand). valid_pixel (camera_height e) (camera_width e) q"
      by (simp add: reflected_def)
  qed
  ultimately show ?thesis
    using assms(1) by (simp add: matching_target_inds_def target_inds_mask_def)
qed

text \<open>
  C9, as the code has it. When the amodal pixel set is empty and the image has a pixel,
  neither search raises: each runs on index arrays without entries and returns the
  binary image with no true pixel and the intensity image of zeros.
\<close>

theorem empty_target_result:
  assumes "target_inds e = []" "0 < camera_height e" "0 < camera_width e"
  shows "find_target_distribution_2d e = Inr (\<lambda>r c. False, \<lambda>r c. 0)
       \<and> find_target_distribution_3d e = Inr (\<lambda>r c. False, \<lambda>r c. 0)"
proof -
  have c2: "\<And>cand. cand \<in> set (shifted_target_inds_2d e) \<Longrightarrow> cand = []"
    using length_candidate_2d assms(1) by fastforce
  have c3: "\<And>cand. cand \<in> set (shifted_target_inds_3d e) \<Longrightarrow> cand = []"
    using length_candidate_3d assms(1) by fastforce
  show ?thesis
    using empty_target_matching [OF assms(1) c2] empty_target_matching [OF assms(1) c3] assms(2,3)
    by (simp add: find_target_distribution_2d_def find_target_distribution_3d_def
        distribution_def accumulate_nil)
qed

theorem empty_target_result_witness:
  "target_inds scene_row_empty = [] \<and> 0 < camera_height scene_row_empty
   \<and> 0 < camera_width scene_row_empty
   \<and> find_target_distribution_2d scene_row_empty = Inr (\<lambda>r c. False, \<lambda>r c. 0)
   \<and> find_target_distribution_3d scene_row_empty = Inr (\<lambda>r c. False, \<lambda>r c. 0)"
  using empty_target_result [of scene_row_empty] by (simp add: target_inds_row_empty)

text \<open>
  C9 as stated fails: the result for the empty target of \<open>scene_row_empty\<close> is an ordinary
  pair of images, the same pair as for the target of \<open>scene_row_occluded\<close>.
\<close>

theorem empty_target_not_distinct:
  "target_inds scene_row_empty = [] \<and> target_inds scene_row_occluded \<noteq> []
   \<and> find_target_distribution_2d scene_row_empty = Inr (\<lambda>r c. False, \<lambda>r c. 0)
   \<and> find_target_distribution_2d scene_row_empty = find_target_distribution_2d scene_row_occluded"
proof -
  have c2: "\<And>cand. cand \<in> set (shifted_target_inds_2d scene_row_empty) \<Longrightarrow> cand = []"
    using length_candidate_2d target_inds_row_empty by fastforce
  have e: "find_target_distribution_2d scene_row_empty = Inr (\<lambda>r c. False, \<lambda>r c. 0)"
    using empty_target_matching [OF target_inds_row_empty c2]
    by (simp add: find_target_distribution_2d_def distribution_def accumulate_nil)
  have o: "find_target_distribution_2d scene_row_occluded = Inr (\<lambda>r c. False, \<lambda>r c. 0)"
    by (simp add: find_target_distribution_2d_def distribution_def indices_valid_2d
      matching_row_occluded accumulate_nil)
  show ?thesis using e o by (simp add: target_inds_row_empty target_inds_row_occluded)
qed

section \<open>The rotations of the 3D search\<close>

lemma length_rotated_target_inds [simp]: "length (rotated_target_inds e) = 16"
  by (simp add: rotated_target_inds_def num_rots_def)

lemma rotated_nth:
  assumes "k < 16" "p < length (target_inds e)"
  shows "rotated_target_inds e ! k ! p
     = (astype_int (fst (rotate_about (target_centroid e) (rot_angle k) (target_inds e ! p))),
        astype_int (snd (rotate_about (target_centroid e) (rot_angle k) (target_inds e ! p))))"
  using assms by (simp add: rotated_target_inds_def num_rots_def)

lemma concat_map_nth:
  assumes "\<And>x. x \<in> set xs \<Longrightarrow> length (f x) = n" "m < length xs * n"
  shows "concat (map f xs) ! m = f (xs ! (m div n)) ! (m mod n)"
  using assms
proof (induction xs arbitrary: m)
  case Nil
  then show ?case by simp
next
  case (Cons a xs)
  have n: "0 < n" using Cons.prems(2) by (cases n) auto
  have la: "length (f a) = n" using Cons.prems(1) by simp
  show ?case
  proof (cases "m < n")
    case True
    then show ?thesis using la by (simp add: nth_append)
  next
    case False
    then have m: "n \<le> m" by simp
    have lt: "m - n < length xs * n" using Cons.prems(2) m by simp
    have IH: "concat (map f xs) ! (m - n) = f (xs ! ((m - n) div n)) ! ((m - n) mod n)"
      using Cons.IH [OF _ lt] Cons.prems(1) by simp
    have d: "m div n = Suc ((m - n) div n)" using m n by (simp add: le_div_geq)
    have r: "m mod n = (m - n) mod n" using m by (simp add: le_mod_geq)
    show ?thesis using False la IH d r by (simp add: nth_append)
  qed
qed

lemma length_concat_map:
  assumes "\<And>x. x \<in> set xs \<Longrightarrow> length (f x) = n"
  shows "length (concat (map f xs)) = length xs * n"
  using assms by (induction xs) auto

lemma length_shifted_3d [simp]: "length (shifted_target_inds_3d e) = 16 * 1938"
  unfolding shifted_target_inds_3d_def
  using length_concat_map [of "rotated_target_inds e" "\<lambda>rinds. map (shift_inds rinds) (grid e)" 1938]
  by simp

lemma shifted_3d_nth:
  assumes "m < 16 * 1938"
  shows "shifted_target_inds_3d e ! m
     = shift_inds (rotated_target_inds e ! (m div 1938)) (grid e ! (m mod 1938))"
proof -
  have "concat (map (\<lambda>rinds. map (shift_inds rinds) (grid e)) (rotated_target_inds e)) ! m
      = map (shift_inds (rotated_target_inds e ! (m div 1938))) (grid e) ! (m mod 1938)"
    using assms by (intro concat_map_nth) auto
  then show ?thesis by (simp add: shifted_target_inds_3d_def)
qed

lemma astype_int_truncates: "\<bar>real_of_int (astype_int x)\<bar> \<le> \<bar>x\<bar> \<and> \<bar>x - real_of_int (astype_int x)\<bar> < 1"
  unfolding astype_int_def by (auto; linarith)

text \<open>
  C8, as the code has it. The 3D search has \<open>16 * 1938\<close> candidates; candidate \<open>m\<close> is
  the target rotated about its centroid by the angle \<open>(m div 1938) * 2 pi / 16\<close> and then
  moved by grid entry \<open>m mod 1938\<close>. The rotated coordinates are made integers by dropping
  the fractional part (truncation towards zero), not by rounding to the nearest integer.
\<close>

theorem rotation_candidates:
  assumes "m < 16 * 1938" and "p < length (target_inds e)"
  shows "length (shifted_target_inds_3d e) = 16 * 1938
     \<and> rot_angle (m div 1938) = real (m div 1938) * (2 * pi / 16)
     \<and> shifted_target_inds_3d e ! m ! p
       = (astype_int (fst (rotate_about (target_centroid e) (rot_angle (m div 1938)) (target_inds e ! p)))
            + fst (grid e ! (m mod 1938)),
          astype_int (snd (rotate_about (target_centroid e) (rot_angle (m div 1938)) (target_inds e ! p)))
            + snd (grid e ! (m mod 1938)))
     \<and> \<bar>real_of_int (astype_int x)\<bar> \<le> \<bar>x\<bar> \<and> \<bar>x - real_of_int (astype_int x)\<bar> < 1"
proof -
  have k: "m div 1938 < 16" using assms(1) by (simp add: less_mult_imp_div_less)
  have "length (rotated_target_inds e ! (m div 1938)) = length (target_inds e)"
    using k by (simp add: length_rotated)
  then have "shifted_target_inds_3d e ! m ! p
       = (fst (rotated_target_inds e ! (m div 1938) ! p) + fst (grid e ! (m mod 1938)),
          snd (rotated_target_inds e ! (m div 1938) ! p) + snd (grid e ! (m mod 1938)))"
    using assms by (simp add: shifted_3d_nth shift_inds_def)
  then show ?thesis
    using rotated_nth [OF k assms(2)] astype_int_truncates [of x]
    by (simp add: rot_angle_def num_rots_def)
qed

lemma rot_angle_4 [simp]: "cos (rot_angle 4) = 0" "sin (rot_angle 4) = 1"
  by (simp_all add: rot_angle_def num_rots_def)

lemma rotated_1x5: "rotated_target_inds scene_1x5 ! 4 = [(- 1, 1), (0, 1), (2, 1)]"
  by (simp add: rotated_target_inds_def num_rots_def target_inds_1x5 centroid_1x5
      rotate_about_def astype_int_def)

theorem rotation_candidates_witness:
  "(7752::nat) < 16 * 1938 \<and> (0::nat) < length (target_inds scene_1x5)
   \<and> shifted_target_inds_3d scene_1x5 ! 7752 ! 0
     = (- 1 + fst (grid scene_1x5 ! 0), 1 + snd (grid scene_1x5 ! 0))
   \<and> \<bar>real_of_int (astype_int (- 5 / 3))\<bar> \<le> 5 / 3"
  using rotation_candidates [of 7752 0 scene_1x5 "- 5 / 3"]
  by (simp add: target_inds_1x5 centroid_1x5 rotate_about_def astype_int_def)

text \<open>
  C8 as stated fails: on \<open>scene_1x5\<close> the quarter turn takes the pixel \<open>(0, 0)\<close> to
  \<open>(-5/3, 5/3)\<close>, which the search makes \<open>(-1, 1)\<close>; the nearest pixel is \<open>(-2, 2)\<close>.
\<close>

theorem truncation_counterexample:
  "target_inds scene_1x5 ! 0 = (0, 0)
   \<and> rotate_about (target_centroid scene_1x5) (rot_angle 4) (0, 0) = (- 5 / 3, 5 / 3)
   \<and> rotated_target_inds scene_1x5 ! 4 ! 0 = (- 1, 1)
   \<and> round (- 5 / 3 :: real) = - 2 \<and> round (5 / 3 :: real) = 2"
  by (simp add: rotated_1x5 target_inds_1x5 centroid_1x5 rotate_about_def round_def)

section \<open>Index safety of the 3D search\<close>

lemma grid_rows_1x5: "g \<in> set (grid scene_1x5) \<Longrightarrow> fst g = 0"
  using linspace_int_zero by (auto simp: set_grid centroid_int_1x5)

lemma invalid_candidate_1x5: "\<not> indices_valid scene_1x5 (shifted_target_inds_3d scene_1x5)"
proof -
  let ?g = "grid scene_1x5 ! 0"
  let ?cand = "shift_inds (rotated_target_inds scene_1x5 ! 4) ?g"
  have g: "?g \<in> set (grid scene_1x5)" by (intro nth_mem) simp
  have r: "rotated_target_inds scene_1x5 ! 4 \<in> set (rotated_target_inds scene_1x5)"
    by (intro nth_mem) simp
  have c: "?cand \<in> set (shifted_target_inds_3d scene_1x5)"
    by (auto simp: shifted_target_inds_3d_def intro!: bexI [OF _ r] imageI g)
  have "fst ?g = 0" using g by (rule grid_rows_1x5)
  then have "(- 2, reflect 5 (1 + snd ?g)) \<in> set (reflected scene_1x5 ?cand)"
    by (simp add: rotated_1x5 shift_inds_def reflected_def reflect_pixel_def reflect_def)
  moreover have "\<not> valid_pixel 1 5 (- 2, reflect 5 (1 + snd ?g))"
    by (simp add: valid_pixel_def valid_index_def)
  ultimately show ?thesis
    using c unfolding indices_valid_def list_all_iff
    by (metis scene_1x5_simps(1) scene_1x5_simps(2))
qed

text \<open>
  C3. The reflection keeps every index of the 2D search within what NumPy accepts
  (\<open>indices_valid_2d\<close>), and the in-bounds mask is true exactly at the coordinates inside
  the frame (\<open>in_bounds_reflect_pixel\<close>). A rotation can take a coordinate further out: on
  \<open>scene_1x5\<close>, one row high, the quarter turn puts a pixel of the target in row 2, its
  reflection is row \<open>-2\<close>, and the 3D search ends in an IndexError.
\<close>

theorem rotated_candidate_index_error:
  "find_target_distribution_3d scene_1x5 = Inl IndexError"
  by (simp add: find_target_distribution_3d_def distribution_def invalid_candidate_1x5)

end
